theory Spec2Isabelle
  imports Main "HOL-Library.Word" "HOL-Library.Multiset" "HOL-Library.Product_Lexorder"
begin

section \<open>Data model\<close>

text \<open>
  The program works on pandas DataFrames whose integer columns are stored as
  int64. A cell is therefore a 64-bit word: \<open>-\<close> wraps around, \<open>sint\<close> reads
  the signed value. The arguments \<open>month\<close> and \<open>year\<close> are Python integers and
  are modelled as \<open>int\<close>.
\<close>

type_synonym cell = "64 word"

text \<open>
  A rental timestamp is the tuple (year, month, day, hour, minute, second);
  the order on it is the lexicographic one, which is the chronological order.
\<close>

type_synonym timestamp = "int \<times> int \<times> int \<times> int \<times> int \<times> int"

definition YEAR :: "timestamp \<Rightarrow> int" where
  "YEAR t = fst t"

definition MONTH :: "timestamp \<Rightarrow> int" where
  "MONTH t = fst (snd t)"

text \<open>One row of the \<open>rental\<close> table, with the three selected fields.\<close>

record rental =
  rental_id :: cell
  rental_date :: timestamp
  customer_id :: cell

text \<open>
  A DataFrame of integer columns, column by column as pandas stores it: the
  ordered list of labelled columns, each holding its values from the first
  row to the last.
\<close>

type_synonym series = "cell list"
type_synonym dataframe = "(string \<times> series) list"

definition columns :: "dataframe \<Rightarrow> string list" where
  "columns df = map fst df"

text \<open>
  The shape of a DataFrame with unique labels: no label occurs twice and all
  columns have the same number of rows.
\<close>

definition nrows :: "dataframe \<Rightarrow> nat" where
  "nrows df = (case df of [] \<Rightarrow> 0 | (_, vs) # _ \<Rightarrow> length vs)"

definition wf_frame :: "dataframe \<Rightarrow> bool" where
  "wf_frame df = (distinct (columns df) \<and> list_all (\<lambda>(_, vs). length vs = nrows df) df)"

text \<open>The exceptions the functions can raise.\<close>

datatype error =
  SchemaError      \<comment> \<open>the \<open>ValueError\<close> raised by \<open>compare_rentals\<close> itself\<close>
  | KeyError string  \<comment> \<open>a label that is not a column\<close>
  | MergeError       \<comment> \<open>the suffixes of \<open>merge\<close> make two labels of one side equal\<close>
  | NotASeries string  \<comment> \<open>a label that selects more than one column\<close>

section \<open>Column naming\<close>

definition digit_char :: "nat \<Rightarrow> char" where
  "digit_char d = ''0123456789'' ! d"

fun str_nat :: "nat \<Rightarrow> string" where
  "str_nat n = (if n < 10 then [digit_char n] else str_nat (n div 10) @ [digit_char (n mod 10)])"

declare str_nat.simps [simp del]

text \<open>Python's \<open>str\<close> of an integer, as \<open>f"{year}"\<close> renders it.\<close>

definition str_int :: "int \<Rightarrow> string" where
  "str_int i = (if i < 0 then CHR ''-'' # str_nat (nat (- i)) else str_nat (nat i))"

text \<open>
  Python's format \<open>02d\<close>: the decimal rendering, with zeros between the sign
  and the digits up to a total width of two characters.
\<close>

definition format_02d :: "int \<Rightarrow> string" where
  "format_02d i =
     (if i < 0 then CHR ''-'' # str_nat (nat (- i))
      else if i < 10 then CHR ''0'' # str_nat (nat i)
      else str_nat (nat i))"

definition col_name :: "int \<Rightarrow> int \<Rightarrow> string" where
  "col_name month year = ''rentals_'' @ format_02d month @ ''_'' @ str_int year"

section \<open>\<open>rental_count_month\<close>\<close>

text \<open>
  \<open>groupby("customer_id", as_index=False)["rental_id"].count()\<close> makes one row
  per distinct customer, the keys in ascending (signed) order, with the number
  of rows of the group as an int64; \<open>rename\<close> gives the count column its name.
\<close>

definition group_keys :: "rental list \<Rightarrow> cell list" where
  "group_keys df_rentals = sort_key sint (remdups (map customer_id df_rentals))"

definition group_count :: "rental list \<Rightarrow> cell \<Rightarrow> cell" where
  "group_count df_rentals k = of_nat (length (filter (\<lambda>r. customer_id r = k) df_rentals))"

definition rental_count_month :: "rental list \<Rightarrow> int \<Rightarrow> int \<Rightarrow> dataframe" where
  "rental_count_month df_rentals month year =
     (let ks = group_keys df_rentals
      in [(''customer_id'', ks), (col_name month year, map (group_count df_rentals) ks)])"

section \<open>\<open>rentals_month\<close>\<close>

text \<open>
  The data source is the \<open>rental\<close> table, a list of rows. The query keeps the
  rows whose \<open>YEAR(rental_date)\<close> and \<open>MONTH(rental_date)\<close> equal the two
  parameters and orders them by \<open>rental_date\<close>. SQL leaves the order of rows
  with equal timestamps open; the model keeps them in table order.
\<close>

definition rentals_month :: "rental list \<Rightarrow> int \<Rightarrow> int \<Rightarrow> rental list" where
  "rentals_month engine month year =
     sort_key rental_date
       (filter (\<lambda>r. YEAR (rental_date r) = year \<and> MONTH (rental_date r) = month) engine)"

section \<open>\<open>compare_rentals\<close>\<close>

text \<open>Python's \<open>str.startswith\<close>.\<close>

definition startswith :: "string \<Rightarrow> string \<Rightarrow> bool" where
  "startswith s p = (take (length p) s = p)"

definition rentals_cols :: "dataframe \<Rightarrow> string list" where
  "rentals_cols df = filter (\<lambda>c. startswith c ''rentals_'') (columns df)"

text \<open>
  \<open>df[c]\<close>: the column labelled \<open>c\<close>. A missing label raises \<open>KeyError\<close>. A
  label carried by several columns selects a frame, not a column; the
  subtraction and the assignment that follow are not defined on it here, and
  the selection is reported as \<open>NotASeries\<close>.
\<close>

definition getitem :: "dataframe \<Rightarrow> string \<Rightarrow> error + series" where
  "getitem df c =
     (case map_of df c of
        None \<Rightarrow> Inl (KeyError c)
      | Some vs \<Rightarrow> if count_list (columns df) c = 1 then Inr vs else Inl (NotASeries c))"

text \<open>
  \<open>df[c] = s\<close>: replaces the column labelled \<open>c\<close> where there is one and
  appends a new last column otherwise.
\<close>

definition setitem :: "dataframe \<Rightarrow> string \<Rightarrow> series \<Rightarrow> dataframe" where
  "setitem df c s =
     (if c \<in> set (columns df) then map (\<lambda>(n, vs). if n = c then (n, s) else (n, vs)) df
      else df @ [(c, s)])"

text \<open>Subtraction of two columns of one frame, row by row, in int64.\<close>

definition series_sub :: "series \<Rightarrow> series \<Rightarrow> series" where
  "series_sub a b = map (\<lambda>(x, y). x - y) (zip a b)"

text \<open>
  \<open>left.merge(right, on=key, how="inner")\<close>. The row pairs of the join are the
  pairs of positions with equal keys, in the order of the left rows. The key
  column of the right frame is dropped; a label that both frames still have
  gets the suffix \<open>_x\<close> on the left and \<open>_y\<close> on the right; the result holds
  the left columns and then the right ones, each read at its side of the pairs.
\<close>

definition join_pairs :: "series \<Rightarrow> series \<Rightarrow> (nat \<times> nat) list" where
  "join_pairs kl kr =
     concat (map (\<lambda>i. map (\<lambda>j. (i, j)) (filter (\<lambda>j. kl ! i = kr ! j) [0..<length kr]))
                 [0..<length kl])"

definition take_rows :: "nat list \<Rightarrow> series \<Rightarrow> series" where
  "take_rows idx vs = map (\<lambda>i. vs ! i) idx"

definition suffixed :: "string set \<Rightarrow> string \<Rightarrow> string \<Rightarrow> string" where
  "suffixed ov suffix c = (if c \<in> ov then c @ suffix else c)"

definition drop_key :: "dataframe \<Rightarrow> string \<Rightarrow> dataframe" where
  "drop_key df key = filter (\<lambda>(n, vs). n \<noteq> key) df"

definition overlap :: "dataframe \<Rightarrow> dataframe \<Rightarrow> string \<Rightarrow> string set" where
  "overlap left right key = set (columns left) \<inter> set (columns (drop_key right key))"

text \<open>
  The labels that the suffix makes equal to an earlier label of the same
  side: position by position, the renamed label has occurred before among the
  renamed labels while the original label has not occurred before among the
  original ones. \<open>merge\<close> raises \<open>MergeError\<close> when there is such a label on
  either side; a label that is repeated in the input already passes, and so
  does a label of one side that equals a label of the other side (pandas 2).
\<close>

fun suffix_dups :: "(string \<Rightarrow> string) \<Rightarrow> string list \<Rightarrow> string list \<Rightarrow> string list" where
  "suffix_dups f seen [] = []"
| "suffix_dups f seen (c # cs) =
     (if f c \<in> set (map f seen) \<and> c \<notin> set seen then [f c] else [])
       @ suffix_dups f (seen @ [c]) cs"

definition merge :: "dataframe \<Rightarrow> dataframe \<Rightarrow> string \<Rightarrow> error + dataframe" where
  "merge left right key =
     (case getitem left key of
        Inl e \<Rightarrow> Inl e
      | Inr kl \<Rightarrow>
          (case getitem right key of
             Inl e \<Rightarrow> Inl e
           | Inr kr \<Rightarrow>
               (let ov = overlap left right key;
                    ldups = suffix_dups (suffixed ov ''_x'') [] (columns left);
                    rdups = suffix_dups (suffixed ov ''_y'') [] (columns (drop_key right key));
                    pairs = join_pairs kl kr
                in if ldups @ rdups \<noteq> [] then Inl MergeError
                   else Inr (map (\<lambda>(n, vs). (suffixed ov ''_x'' n, take_rows (map fst pairs) vs)) left
                           @ map (\<lambda>(n, vs). (suffixed ov ''_y'' n, take_rows (map snd pairs) vs))
                               (drop_key right key)))))"

definition compare_rentals :: "dataframe \<Rightarrow> dataframe \<Rightarrow> error + dataframe" where
  "compare_rentals df_counts_1 df_counts_2 =
     (let rentals_cols_1 = rentals_cols df_counts_1;
          rentals_cols_2 = rentals_cols df_counts_2
      in if length rentals_cols_1 \<noteq> 1 \<or> length rentals_cols_2 \<noteq> 1 then Inl SchemaError
         else
           (let col_1 = hd rentals_cols_1;
                col_2 = hd rentals_cols_2
            in case merge df_counts_1 df_counts_2 ''customer_id'' of
                 Inl e \<Rightarrow> Inl e
               | Inr df_merged \<Rightarrow>
                   (case getitem df_merged col_2 of
                      Inl e \<Rightarrow> Inl e
                    | Inr s2 \<Rightarrow>
                        (case getitem df_merged col_1 of
                           Inl e \<Rightarrow> Inl e
                         | Inr s1 \<Rightarrow> Inr (setitem df_merged ''difference'' (series_sub s2 s1))))))"

text \<open>The customer ids of a frame: the values of its \<open>customer_id\<close> column.\<close>

definition customer_ids :: "dataframe \<Rightarrow> cell list" where
  "customer_ids df = (case getitem df ''customer_id'' of Inr ks \<Rightarrow> ks | Inl _ \<Rightarrow> [])"

section \<open>Example data\<close>

text \<open>Three rentals of May 2005 and one of June 2005, by customers 7 and 3.\<close>

definition example_rentals :: "rental list" where
  "example_rentals =
     [\<lparr>rental_id = 1, rental_date = (2005, 5, 9, 10, 0, 0), customer_id = 7\<rparr>,
      \<lparr>rental_id = 2, rental_date = (2005, 6, 2, 8, 30, 0), customer_id = 3\<rparr>,
      \<lparr>rental_id = 3, rental_date = (2005, 5, 3, 17, 45, 10), customer_id = 7\<rparr>,
      \<lparr>rental_id = 4, rental_date = (2005, 5, 3, 9, 0, 0), customer_id = 3\<rparr>]"

text \<open>The two count tables of the specification's example.\<close>

definition counts_may :: dataframe where
  "counts_may = [(''customer_id'', [1]), (''rentals_05_2005'', [3])]"

definition counts_june :: dataframe where
  "counts_june = [(''customer_id'', [1, 2]), (''rentals_06_2005'', [5, 1])]"


definition counts_june_other :: dataframe where
  "counts_june_other = [(''customer_id'', [2, 9]), (''rentals_06_2005'', [4, 4])]"

definition counts_may_disjoint :: dataframe where
  "counts_may_disjoint = [(''customer_id'', [2]), (''rentals_05_2005'', [4])]"

definition counts_june_disjoint :: dataframe where
  "counts_june_disjoint = [(''customer_id'', [2, 4]), (''rentals_06_2005'', [5, 1])]"

text \<open>
  Two tables that carry, beside the count column \<open>rentals_x\<close>, a column
  labelled \<open>rentals\<close>.
\<close>

definition extra_1 :: dataframe where
  "extra_1 = [(''customer_id'', [1]), (''rentals'', [7]), (''rentals_x'', [3])]"

definition extra_2 :: dataframe where
  "extra_2 = [(''customer_id'', [1]), (''rentals'', [8]), (''rentals_x'', [5])]"

section \<open>Column naming: proofs\<close>

lemma str_nat_digit: "n < 10 \<Longrightarrow> str_nat n = [digit_char n]"
  by (simp add: str_nat.simps)

lemma str_nat_two: "10 \<le> n \<Longrightarrow> n < 100 \<Longrightarrow> str_nat n = [digit_char (n div 10), digit_char (n mod 10)]"
  by (subst str_nat.simps) (simp add: str_nat_digit)

lemma format_02d_month:
  assumes "1 \<le> m" "m \<le> 12"
  shows "format_02d m = [digit_char (nat m div 10), digit_char (nat m mod 10)]"
proof (cases "m < 10")
  case True
  with assms have "nat m < 10" "nat m div 10 = 0" by auto
  with True assms show ?thesis
    by (simp add: format_02d_def str_nat_digit digit_char_def)
next
  case False
  with assms have "10 \<le> nat m" "nat m < 100" by auto
  with False assms show ?thesis
    by (simp add: format_02d_def str_nat_two)
qed

lemma columns_rental_count_month:
  "columns (rental_count_month df_rentals month year) = [''customer_id'', col_name month year]"
  by (simp add: rental_count_month_def columns_def Let_def)

lemma col_name_05_2005: "col_name 5 2005 = ''rentals_05_2005''"
  by code_simp

lemma col_name_12_1999: "col_name 12 1999 = ''rentals_12_1999''"
  by code_simp

text \<open>
  C4. For a month from 1 to 12 and any year, the count column of
  \<open>rental_count_month\<close> is named \<open>rentals_\<close>, the two decimal digits of the
  month, \<open>_\<close>, and the year as Python prints it; month 5 of 2005 gives
  \<open>rentals_05_2005\<close> and month 12 of 1999 gives \<open>rentals_12_1999\<close>.
\<close>

theorem count_column_name:
  "(1 \<le> month \<and> month \<le> 12 \<longrightarrow>
      columns (rental_count_month df_rentals month year) =
        [''customer_id'',
         ''rentals_'' @ [digit_char (nat month div 10), digit_char (nat month mod 10)]
           @ ''_'' @ str_int year])
   \<and> columns (rental_count_month df_rentals 5 2005) = [''customer_id'', ''rentals_05_2005'']
   \<and> columns (rental_count_month df_rentals 12 1999) = [''customer_id'', ''rentals_12_1999'']"
  by (simp add: columns_rental_count_month col_name_05_2005 col_name_12_1999)
     (simp add: col_name_def format_02d_month)

theorem count_column_name_witness:
  "(1::int) \<le> 7 \<and> (7::int) \<le> 12 \<and>
   columns (rental_count_month [] 7 2024) = [''customer_id'', ''rentals_07_2024'']"
proof -
  have d: "str_int 2024 = ''2024''" by code_simp
  show ?thesis
    using count_column_name [of 7 "[]" 2024]
    by (simp add: d digit_char_def)
qed

section \<open>Signed reading of int64 cells\<close>

lemma sint_of_nat_count: "n < 2 ^ 63 \<Longrightarrow> sint (of_nat n :: cell) = int n"
proof -
  assume "n < 2 ^ 63"
  then have "int n < 2 ^ 63" by simp
  then show ?thesis
    by (simp add: signed_of_nat signed_take_bit_int_eq_self)
qed

lemma sint_sub_nonneg:
  fixes a b :: cell
  assumes "0 \<le> sint a" "0 \<le> sint b"
  shows "sint (b - a) = sint b - sint a"
proof -
  have "sint a < 2 ^ 63" "sint b < 2 ^ 63"
    using sint_lt [of a] sint_lt [of b] by simp_all
  with assms have "- (2 ^ 63) \<le> sint b - sint a" "sint b - sint a < 2 ^ 63"
    by linarith+
  then show ?thesis
    by (simp add: sint_word_ariths signed_take_bit_int_eq_self)
qed

section \<open>\<open>rental_count_month\<close>: proofs\<close>

lemma set_group_keys: "set (group_keys evs) = customer_id ` set evs"
  by (simp add: group_keys_def)

lemma distinct_group_keys: "distinct (group_keys evs)"
  by (simp add: group_keys_def)

lemma count_filter:
  "length (filter (\<lambda>r. customer_id r = k) evs) = count_list (map customer_id evs) k"
  by (induction evs) auto

lemma col_name_not_key: "col_name m y \<noteq> ''customer_id''"
  by (simp add: col_name_def)

lemma getitem_count_key:
  "getitem (rental_count_month evs m y) ''customer_id'' = Inr (group_keys evs)"
  by (simp add: getitem_def rental_count_month_def Let_def columns_def col_name_not_key)

lemma getitem_count_col:
  "getitem (rental_count_month evs m y) (col_name m y) = Inr (map (group_count evs) (group_keys evs))"
  using col_name_not_key [of m y]
  by (simp add: getitem_def rental_count_month_def Let_def columns_def)

lemma group_count_sint:
  assumes "length evs < 2 ^ 63"
  shows "sint (group_count evs k) = int (count_list (map customer_id evs) k)"
proof -
  have "length (filter (\<lambda>r. customer_id r = k) evs) \<le> length evs" by simp
  with assms have "length (filter (\<lambda>r. customer_id r = k) evs) < 2 ^ 63" by linarith
  then show ?thesis
    by (simp add: group_count_def sint_of_nat_count count_filter)
qed

lemma count_list_pos: "k \<in> set xs \<Longrightarrow> 0 < count_list xs k"
  by (induction xs) auto

text \<open>
  C1. In the table that \<open>rental_count_month\<close> returns, the customer ids are the
  ids of the input rows, each once, and the count beside an id is the number
  of input rows with that id: as an int64 it is that number modulo \<open>2 ^ 64\<close>,
  and its signed value is that number for any input of fewer than \<open>2 ^ 63\<close>
  rows.
\<close>

theorem rental_count_per_customer:
  "\<exists>ks cs.
     getitem (rental_count_month evs m y) ''customer_id'' = Inr ks
     \<and> getitem (rental_count_month evs m y) (col_name m y) = Inr cs
     \<and> length cs = length ks
     \<and> distinct ks
     \<and> set ks = customer_id ` set evs
     \<and> (\<forall>i<length ks.
            cs ! i = of_nat (count_list (map customer_id evs) (ks ! i))
            \<and> (length evs < 2 ^ 63 \<longrightarrow>
                 sint (cs ! i) = int (count_list (map customer_id evs) (ks ! i))))"
proof (intro exI conjI)
  show "getitem (rental_count_month evs m y) ''customer_id'' = Inr (group_keys evs)"
    by (rule getitem_count_key)
  show "getitem (rental_count_month evs m y) (col_name m y)
          = Inr (map (group_count evs) (group_keys evs))"
    by (rule getitem_count_col)
  show "length (map (group_count evs) (group_keys evs)) = length (group_keys evs)"
    by simp
  show "distinct (group_keys evs)"
    by (rule distinct_group_keys)
  show "set (group_keys evs) = customer_id ` set evs"
    by (rule set_group_keys)
  show "\<forall>i<length (group_keys evs).
          map (group_count evs) (group_keys evs) ! i
            = of_nat (count_list (map customer_id evs) (group_keys evs ! i))
          \<and> (length evs < 2 ^ 63 \<longrightarrow>
               sint (map (group_count evs) (group_keys evs) ! i)
                 = int (count_list (map customer_id evs) (group_keys evs ! i)))"
    by (simp add: group_count_sint) (simp add: group_count_def count_filter)
qed

theorem rental_count_per_customer_witness:
  "\<exists>ks cs.
     getitem (rental_count_month example_rentals 5 2005) ''customer_id'' = Inr ks
     \<and> getitem (rental_count_month example_rentals 5 2005) ''rentals_05_2005'' = Inr cs
     \<and> set ks = {3, 7}
     \<and> (\<forall>i<length ks. sint (cs ! i) = int (count_list [7, 3, 7, 3] (ks ! i)))"
proof -
  have len: "length example_rentals < 2 ^ 63"
    by (simp add: example_rentals_def)
  have ids: "map customer_id example_rentals = [7, 3, 7, 3]"
    by (simp add: example_rentals_def)
  have img: "customer_id ` set example_rentals = {3, 7}"
    by (auto simp: example_rentals_def)
  from rental_count_per_customer [of example_rentals 5 2005]
  obtain ks cs where
    "getitem (rental_count_month example_rentals 5 2005) ''customer_id'' = Inr ks"
    "getitem (rental_count_month example_rentals 5 2005) (col_name 5 2005) = Inr cs"
    "set ks = customer_id ` set example_rentals"
    "\<forall>i<length ks. length example_rentals < 2 ^ 63 \<longrightarrow>
        sint (cs ! i) = int (count_list (map customer_id example_rentals) (ks ! i))"
    by blast
  with len ids img show ?thesis
    by (auto simp: col_name_05_2005)
qed

text \<open>
  C9. Every count in the table that \<open>rental_count_month\<close> returns is at least
  1, for any input of fewer than \<open>2 ^ 63\<close> rows (the range in which an int64
  holds the number of rows).
\<close>

theorem rental_count_at_least_one:
  assumes "length evs < 2 ^ 63"
    and "getitem (rental_count_month evs m y) (col_name m y) = Inr cs"
    and "c \<in> set cs"
  shows "1 \<le> sint c"
proof -
  from assms(2) have "cs = map (group_count evs) (group_keys evs)"
    by (simp add: getitem_count_col)
  with assms(3) obtain k where k: "k \<in> set (group_keys evs)" and c: "c = group_count evs k"
    by auto
  from k have "k \<in> set (map customer_id evs)"
    by (simp add: set_group_keys)
  then have "0 < count_list (map customer_id evs) k"
    by (rule count_list_pos)
  with c assms(1) show ?thesis
    by (simp add: group_count_sint)
qed

theorem rental_count_at_least_one_witness:
  "length example_rentals < 2 ^ 63
   \<and> getitem (rental_count_month example_rentals 5 2005) (col_name 5 2005) = Inr [2, 2]
   \<and> (2 :: cell) \<in> set [2, 2]
   \<and> 1 \<le> sint (2 :: cell)"
proof -
  have h1: "length example_rentals < 2 ^ 63"
    by (simp add: example_rentals_def)
  have h2: "getitem (rental_count_month example_rentals 5 2005) (col_name 5 2005) = Inr [2, 2]"
    by (simp add: getitem_count_col group_keys_def group_count_def example_rentals_def)
  have h3: "(2 :: cell) \<in> set [2, 2]"
    by simp
  from rental_count_at_least_one [OF h1 h2 h3] h1 h2 h3 show ?thesis
    by blast
qed

section \<open>\<open>rentals_month\<close>: proofs\<close>

text \<open>
  C8. \<open>rentals_month\<close> returns exactly the rows of the table whose timestamp
  has the given year and the given month, each as often as the table holds it,
  in ascending order of the timestamp.
\<close>

theorem rentals_month_selects_and_orders:
  "mset (rentals_month engine month year)
     = {#r \<in># mset engine. YEAR (rental_date r) = year \<and> MONTH (rental_date r) = month#}
   \<and> set (rentals_month engine month year)
     = {r \<in> set engine. YEAR (rental_date r) = year \<and> MONTH (rental_date r) = month}
   \<and> sorted (map rental_date (rentals_month engine month year))"
  by (simp add: rentals_month_def)

theorem rentals_month_selects_and_orders_witness:
  "map rental_id (rentals_month example_rentals 5 2005) = [4, 3, 1]
   \<and> sorted (map rental_date (rentals_month example_rentals 5 2005))"
proof -
  have "map rental_id (rentals_month example_rentals 5 2005) = [4, 3, 1]"
    by (simp add: rentals_month_def example_rentals_def YEAR_def MONTH_def)
  with rentals_month_selects_and_orders [of example_rentals 5 2005] show ?thesis
    by blast
qed

section \<open>\<open>compare_rentals\<close>: the schema check\<close>

lemma getitem_not_schema: "getitem df c \<noteq> Inl SchemaError"
  by (simp add: getitem_def split: option.splits)

lemma merge_not_schema: "merge l r k \<noteq> Inl SchemaError"
  using getitem_not_schema
  by (auto simp: merge_def Let_def split: sum.splits)

lemma startswith_iff: "startswith s p = (\<exists>rest. s = p @ rest)"
  unfolding startswith_def
  by (metis append_eq_conv_conj append_take_drop_id)

text \<open>
  C5. \<open>compare_rentals\<close> raises its schema error exactly when one of the two
  tables does not have exactly one column whose label starts with
  \<open>rentals_\<close>. The check comes first: the result is then the error and no
  table, whatever the join would have done.
\<close>

theorem schema_error_iff:
  "(compare_rentals df_counts_1 df_counts_2 = Inl SchemaError)
     = (length (rentals_cols df_counts_1) \<noteq> 1 \<or> length (rentals_cols df_counts_2) \<noteq> 1)"
  using getitem_not_schema merge_not_schema
  by (auto simp: compare_rentals_def Let_def split: sum.splits)

theorem schema_error_iff_witness:
  "length (rentals_cols [(''customer_id'', [1]), (''rentals_05_2005'', [3]), (''rentals_06_2005'', [4])]) \<noteq> 1
   \<and> compare_rentals [(''customer_id'', [1]), (''rentals_05_2005'', [3]), (''rentals_06_2005'', [4])]
        counts_june = Inl SchemaError
   \<and> length (rentals_cols [(''rental_id'', [1, 2])]) \<noteq> 1
   \<and> compare_rentals counts_may [(''rental_id'', [1, 2])] = Inl SchemaError"
  using schema_error_iff [of "[(''customer_id'', [1]), (''rentals_05_2005'', [3]), (''rentals_06_2005'', [4])]" counts_june]
    schema_error_iff [of counts_may "[(''rental_id'', [1, 2])]"]
  by (simp add: rentals_cols_def columns_def startswith_def)

text \<open>
  C10. The schema check looks at the prefix only: the recognised count
  columns are the labels that are \<open>rentals_\<close> followed by anything. A table
  whose one such column is \<open>rentals_foo\<close> passes the check and is compared
  without error.
\<close>

theorem count_column_is_prefix_test:
  "rentals_cols df = filter (\<lambda>c. \<exists>rest. c = ''rentals_'' @ rest) (columns df)
   \<and> rentals_cols [(''customer_id'', ks), (''rentals_foo'', vs)] = [''rentals_foo'']
   \<and> compare_rentals [(''customer_id'', [1]), (''rentals_foo'', [3])] counts_june
       = Inr [(''customer_id'', [1]), (''rentals_foo'', [3]), (''rentals_06_2005'', [5]),
              (''difference'', [2])]"
proof (intro conjI)
  show "rentals_cols df = filter (\<lambda>c. \<exists>rest. c = ''rentals_'' @ rest) (columns df)"
    by (simp add: rentals_cols_def startswith_iff)
  show "rentals_cols [(''customer_id'', ks), (''rentals_foo'', vs)] = [''rentals_foo'']"
    by (simp add: rentals_cols_def columns_def startswith_def)
  show "compare_rentals [(''customer_id'', [1]), (''rentals_foo'', [3])] counts_june
       = Inr [(''customer_id'', [1]), (''rentals_foo'', [3]), (''rentals_06_2005'', [5]),
              (''difference'', [2])]"
    unfolding counts_june_def by code_simp
qed

theorem count_column_is_prefix_test_witness:
  "rentals_cols counts_may = [''rentals_05_2005'']
   \<and> rentals_cols [(''customer_id'', [4, 5]), (''rentals_foo'', [1, 1])] = [''rentals_foo'']"
  using count_column_is_prefix_test [of counts_may "[4, 5]" "[1, 1]"]
  by (simp add: counts_may_def columns_def)

section \<open>\<open>compare_rentals\<close>: selecting, assigning and joining columns\<close>

lemma getitem_Inr_iff:
  "getitem df c = Inr vs \<longleftrightarrow> map_of df c = Some vs \<and> count_list (columns df) c = 1"
  by (auto simp: getitem_def split: option.splits)

lemma map_of_relabel:
  assumes "\<forall>n \<in> fst ` set xs. (f n = k) = (n = c)"
  shows "map_of (map (\<lambda>(n, vs). (f n, g vs)) xs) k = map_option g (map_of xs c)"
  using assms by (induction xs) (auto split: prod.splits)

lemma map_of_relabel_none:
  assumes "\<forall>n \<in> fst ` set xs. f n \<noteq> k"
  shows "map_of (map (\<lambda>(n, vs). (f n, g vs)) xs) k = None"
  using assms by (induction xs) (auto split: prod.splits)

lemma count_list_relabel:
  assumes "\<forall>n \<in> set xs. (f n = k) = (n = c)"
  shows "count_list (map f xs) k = count_list xs c"
  using assms by (induction xs) auto

lemma count_list_relabel_none:
  assumes "\<forall>n \<in> set xs. f n \<noteq> k"
  shows "count_list (map f xs) k = 0"
  using assms by (induction xs) auto

lemma columns_relabel: "columns (map (\<lambda>(n, vs). (f n, g vs)) xs) = map f (columns xs)"
  by (induction xs) (auto simp: columns_def)

lemma columns_append: "columns (xs @ ys) = columns xs @ columns ys"
  by (simp add: columns_def)

lemma count_list_zero_iff: "count_list xs k = 0 \<longleftrightarrow> k \<notin> set xs"
  by (induction xs) auto

lemma distinct_count_le: "distinct xs \<Longrightarrow> count_list xs k \<le> 1"
  by (induction xs) (auto simp: count_list_zero_iff)

lemma map_of_None_columns: "map_of df c = None \<longleftrightarrow> c \<notin> set (columns df)"
  by (simp add: columns_def map_of_eq_None_iff)

lemma columns_drop_key: "set (columns (drop_key df key)) = set (columns df) - {key}"
  by (auto simp: columns_def drop_key_def)

lemma map_of_drop_key: "c \<noteq> key \<Longrightarrow> map_of (drop_key df key) c = map_of df c"
  by (induction df) (auto simp: drop_key_def)

lemma suffixed_eq_iff:
  assumes "c \<notin> ov" "\<And>n. n @ s \<noteq> c"
  shows "(suffixed ov s n = c) = (n = c)"
  using assms by (auto simp: suffixed_def)

lemma suffixed_neq:
  assumes "c \<in> ov" "\<And>n. n @ s \<noteq> c"
  shows "suffixed ov s n \<noteq> c"
  using assms by (auto simp: suffixed_def)

lemma key_no_suffix_x: "n @ ''_x'' \<noteq> ''customer_id''"
proof
  assume "n @ ''_x'' = ''customer_id''"
  then have "last (n @ ''_x'') = last ''customer_id''" by simp
  then show False by simp
qed

lemma key_no_suffix_y: "n @ ''_y'' \<noteq> ''customer_id''"
proof
  assume "n @ ''_y'' = ''customer_id''"
  then have "last (n @ ''_y'') = last ''customer_id''" by simp
  then show False by simp
qed

lemma diff_no_suffix_x: "n @ ''_x'' \<noteq> ''difference''"
proof
  assume "n @ ''_x'' = ''difference''"
  then have "last (n @ ''_x'') = last ''difference''" by simp
  then show False by simp
qed

lemma diff_no_suffix_y: "n @ ''_y'' \<noteq> ''difference''"
proof
  assume "n @ ''_y'' = ''difference''"
  then have "last (n @ ''_y'') = last ''difference''" by simp
  then show False by simp
qed

lemma set_join_pairs:
  "set (join_pairs kl kr) = {(i, j). i < length kl \<and> j < length kr \<and> kl ! i = kr ! j}"
  by (auto simp: join_pairs_def)

lemma take_rows_fst: "take_rows (map fst ps) vs = map (\<lambda>(i, j). vs ! i) ps"
  by (simp add: take_rows_def case_prod_unfold)

lemma take_rows_snd: "take_rows (map snd ps) vs = map (\<lambda>(i, j). vs ! j) ps"
  by (simp add: take_rows_def case_prod_unfold)


lemma suffix_dups_distinct:
  assumes "distinct (seen @ cs)" "distinct (map f seen)"
  shows "(suffix_dups f seen cs = []) = distinct (map f (seen @ cs))"
  using assms
proof (induction cs arbitrary: seen)
  case Nil
  then show ?case by simp
next
  case (Cons c cs)
  show ?case
  proof (cases "f c \<in> f ` set seen")
    case True
    with Cons.prems show ?thesis by auto
  next
    case False
    with Cons.prems have "distinct ((seen @ [c]) @ cs)" "distinct (map f (seen @ [c]))"
      by auto
    then have "(suffix_dups f (seen @ [c]) cs = []) = distinct (map f ((seen @ [c]) @ cs))"
      by (rule Cons.IH)
    with False show ?thesis by simp
  qed
qed

lemma columns_drop_key_filter: "columns (drop_key df key) = filter (\<lambda>n. n \<noteq> key) (columns df)"
  by (induction df) (auto simp: columns_def drop_key_def)

lemma wf_frame_distinct: "wf_frame df \<Longrightarrow> distinct (columns df)"
  by (simp add: wf_frame_def)

lemma merge_Inr_distinct:
  assumes "merge l r key = Inr M" "distinct (columns l)" "distinct (columns r)"
  shows "distinct (map (suffixed (overlap l r key) ''_x'') (columns l))"
    and "distinct (map (suffixed (overlap l r key) ''_y'') (columns (drop_key r key)))"
proof -
  from assms(1) have
    "suffix_dups (suffixed (overlap l r key) ''_x'') [] (columns l) = []"
    "suffix_dups (suffixed (overlap l r key) ''_y'') [] (columns (drop_key r key)) = []"
    by (auto simp: merge_def Let_def split: sum.splits if_splits)
  moreover from assms(3) have "distinct (columns (drop_key r key))"
    by (simp add: columns_drop_key_filter)
  ultimately show
    "distinct (map (suffixed (overlap l r key) ''_x'') (columns l))"
    "distinct (map (suffixed (overlap l r key) ''_y'') (columns (drop_key r key)))"
    using assms(2) by (simp_all add: suffix_dups_distinct)
qed




lemma merge_Inr:
  assumes "merge l r key = Inr M"
  obtains kl kr where
    "getitem l key = Inr kl" "getitem r key = Inr kr"
    "M = map (\<lambda>(n, vs). (suffixed (overlap l r key) ''_x'' n, take_rows (map fst (join_pairs kl kr)) vs)) l
         @ map (\<lambda>(n, vs). (suffixed (overlap l r key) ''_y'' n, take_rows (map snd (join_pairs kl kr)) vs))
             (drop_key r key)"
  using assms
  by (auto simp: merge_def Let_def split: sum.splits if_splits)

lemma columns_setitem:
  "columns (setitem df c s) = (if c \<in> set (columns df) then columns df else columns df @ [c])"
proof -
  have "map fst (map (\<lambda>(n, vs). if n = c then (n, s) else (n, vs)) df) = map fst df"
    by (induction df) auto
  then show ?thesis
    by (simp add: setitem_def columns_def)
qed

lemma map_of_setitem_other:
  assumes "k \<noteq> c"
  shows "map_of (setitem df c s) k = map_of df k"
proof -
  have "map_of (map (\<lambda>(n, vs). if n = c then (n, s) else (n, vs)) df) k = map_of df k"
    using assms by (induction df) auto
  moreover have "map_of (df @ [(c, s)]) k = map_of df k"
    using assms by (simp add: map_add_def split: option.splits)
  ultimately show ?thesis
    by (simp only: setitem_def split: if_splits) simp
qed

lemma map_of_setitem_same: "map_of (setitem df c s) c = Some s"
proof (cases "c \<in> set (columns df)")
  case True
  then have "map_of (map (\<lambda>(n, vs). if n = c then (n, s) else (n, vs)) df) c = Some s"
    by (induction df) (auto simp: columns_def)
  with True show ?thesis
    by (simp only: setitem_def if_True)
next
  case False
  then have "map_of df c = None" by (simp add: map_of_None_columns)
  with False show ?thesis
    by (simp add: setitem_def map_add_def)
qed

lemma getitem_setitem_other:
  assumes "k \<noteq> c"
  shows "getitem (setitem df c s) k = getitem df k"
proof -
  have "count_list (columns (setitem df c s)) k = count_list (columns df) k"
    using assms by (simp add: columns_setitem)
  then show ?thesis
    using assms by (simp add: getitem_def map_of_setitem_other split: option.splits)
qed

lemma getitem_setitem_same:
  assumes "count_list (columns df) c \<le> 1"
  shows "getitem (setitem df c s) c = Inr s"
proof -
  have "count_list (columns (setitem df c s)) c = 1"
  proof (cases "c \<in> set (columns df)")
    case True
    then have "count_list (columns df) c \<noteq> 0" by (simp add: count_list_zero_iff)
    with assms True show ?thesis by (simp add: columns_setitem)
  next
    case False
    then show ?thesis by (simp add: columns_setitem count_list_zero_iff)
  qed
  then show ?thesis
    by (simp add: getitem_def map_of_setitem_same)
qed

lemma compare_rentals_Inr:
  assumes "compare_rentals A B = Inr out"
  obtains c1 c2 M s1 s2 where
    "rentals_cols A = [c1]" "rentals_cols B = [c2]"
    "merge A B ''customer_id'' = Inr M"
    "getitem M c2 = Inr s2" "getitem M c1 = Inr s1"
    "out = setitem M ''difference'' (series_sub s2 s1)"
proof -
  from assms have l1: "length (rentals_cols A) = 1" and l2: "length (rentals_cols B) = 1"
    by (auto simp: compare_rentals_def Let_def split: if_splits)
  from l1 obtain c1 where c1: "rentals_cols A = [c1]"
    by (cases "rentals_cols A") auto
  from l2 obtain c2 where c2: "rentals_cols B = [c2]"
    by (cases "rentals_cols B") auto
  from assms c1 c2 obtain M s1 s2 where
    "merge A B ''customer_id'' = Inr M" "getitem M c2 = Inr s2" "getitem M c1 = Inr s1"
    "out = setitem M ''difference'' (series_sub s2 s1)"
    by (auto simp: compare_rentals_def Let_def split: sum.splits)
  with c1 c2 that show thesis by blast
qed

lemma key_not_in_overlap: "key \<notin> overlap l r key"
  by (simp add: overlap_def columns_drop_key)

lemma merged_key_column:
  assumes M: "merge l r ''customer_id'' = Inr M"
    and kl: "getitem l ''customer_id'' = Inr kl"
    and kr: "getitem r ''customer_id'' = Inr kr"
  shows "getitem M ''customer_id'' = Inr (take_rows (map fst (join_pairs kl kr)) kl)"
proof -
  let ?k = "''customer_id''"
  let ?ov = "overlap l r ?k"
  let ?g = "take_rows (map fst (join_pairs kl kr))"
  let ?h = "take_rows (map snd (join_pairs kl kr))"
  let ?L = "map (\<lambda>(n, vs). (suffixed ?ov ''_x'' n, ?g vs)) l"
  let ?R = "map (\<lambda>(n, vs). (suffixed ?ov ''_y'' n, ?h vs)) (drop_key r ?k)"
  from M kl kr have Meq: "M = ?L @ ?R"
    by (auto elim!: merge_Inr)
  have fx: "\<forall>n. (suffixed ?ov ''_x'' n = ?k) = (n = ?k)"
    using suffixed_eq_iff [OF key_not_in_overlap key_no_suffix_x] by blast
  have fy: "\<forall>n \<in> set (columns (drop_key r ?k)). suffixed ?ov ''_y'' n \<noteq> ?k"
    using suffixed_eq_iff [OF key_not_in_overlap key_no_suffix_y]
    by (simp add: columns_drop_key)
  from kl have a: "map_of l ?k = Some kl" and ca: "count_list (columns l) ?k = 1"
    by (simp_all add: getitem_Inr_iff)
  have "map_of ?L ?k = map_option ?g (map_of l ?k)"
    by (rule map_of_relabel) (simp add: fx)
  with a have mL: "map_of ?L ?k = Some (?g kl)" by simp
  have cL: "count_list (columns ?L) ?k = count_list (columns l) ?k"
    unfolding columns_relabel by (rule count_list_relabel) (simp add: fx)
  have cR: "count_list (columns ?R) ?k = 0"
    unfolding columns_relabel by (rule count_list_relabel_none) (rule fy)
  from mL have "map_of M ?k = Some (?g kl)"
    by (simp add: Meq map_add_def)
  moreover from cL cR ca have "count_list (columns M) ?k = 1"
    by (simp add: Meq columns_append)
  ultimately show ?thesis
    by (simp add: getitem_Inr_iff)
qed

lemma compare_rentals_key_column:
  assumes "compare_rentals A B = Inr out"
  obtains kl kr where
    "getitem A ''customer_id'' = Inr kl" "getitem B ''customer_id'' = Inr kr"
    "getitem out ''customer_id'' = Inr (take_rows (map fst (join_pairs kl kr)) kl)"
proof -
  from assms obtain c1 c2 M s1 s2 where
    M: "merge A B ''customer_id'' = Inr M"
    and out: "out = setitem M ''difference'' (series_sub s2 s1)"
    by (rule compare_rentals_Inr)
  from M obtain kl kr where
    kl: "getitem A ''customer_id'' = Inr kl" and kr: "getitem B ''customer_id'' = Inr kr"
    by (rule merge_Inr)
  from merged_key_column [OF M kl kr] out
  have "getitem out ''customer_id'' = Inr (take_rows (map fst (join_pairs kl kr)) kl)"
    by (simp add: getitem_setitem_other)
  with kl kr that show thesis by blast
qed

lemma count_list_filter: "P c \<Longrightarrow> count_list (filter P xs) c = count_list xs c"
  by (induction xs) auto

lemma key_not_rentals: "\<not> startswith ''customer_id'' ''rentals_''"
  by (simp add: startswith_def)

lemma difference_not_rentals: "\<not> startswith ''difference'' ''rentals_''"
  by (simp add: startswith_def)

lemma rentals_cols_single:
  assumes "rentals_cols df = [c]"
  shows "c \<in> set (columns df)" "startswith c ''rentals_''"
    "count_list (columns df) c = 1"
    "\<And>n. n \<in> set (columns df) \<Longrightarrow> startswith n ''rentals_'' \<Longrightarrow> n = c"
    "c \<noteq> ''customer_id''" "c \<noteq> ''difference''"
proof -
  have s: "set (filter (\<lambda>c. startswith c ''rentals_'') (columns df)) = {c}"
    using assms by (simp add: rentals_cols_def)
  then show 1: "c \<in> set (columns df)" and 2: "startswith c ''rentals_''"
    by auto
  from 2 have "count_list (columns df) c
      = count_list (filter (\<lambda>c. startswith c ''rentals_'') (columns df)) c"
    by (simp add: count_list_filter)
  with assms show "count_list (columns df) c = 1"
    by (simp add: rentals_cols_def)
  show "\<And>n. n \<in> set (columns df) \<Longrightarrow> startswith n ''rentals_'' \<Longrightarrow> n = c"
    using s by auto
  from 2 show "c \<noteq> ''customer_id''" "c \<noteq> ''difference''"
    using key_not_rentals difference_not_rentals by auto
qed

lemma in_columns_map_of: "c \<in> set (columns df) \<Longrightarrow> \<exists>vs. map_of df c = Some vs"
  using map_of_None_columns [of df c] by auto

lemma merged_difference_count:
  assumes dl: "distinct (map (suffixed ov ''_x'') ls)"
    and dr: "distinct (map (suffixed ov ''_y'') rs)"
    and ov: "ov = set ls \<inter> set rs"
  shows "count_list (map (suffixed ov ''_x'') ls @ map (suffixed ov ''_y'') rs) ''difference'' \<le> 1"
proof (cases "''difference'' \<in> ov")
  case True
  have "count_list (map (suffixed ov ''_x'') ls) ''difference'' = 0"
    by (rule count_list_relabel_none) (simp add: suffixed_neq [OF True diff_no_suffix_x])
  moreover have "count_list (map (suffixed ov ''_y'') rs) ''difference'' = 0"
    by (rule count_list_relabel_none) (simp add: suffixed_neq [OF True diff_no_suffix_y])
  ultimately show ?thesis by simp
next
  case False
  have l: "count_list (map (suffixed ov ''_x'') ls) ''difference'' = count_list ls ''difference''"
    by (rule count_list_relabel) (simp add: suffixed_eq_iff [OF False diff_no_suffix_x])
  have r: "count_list (map (suffixed ov ''_y'') rs) ''difference'' = count_list rs ''difference''"
    by (rule count_list_relabel) (simp add: suffixed_eq_iff [OF False diff_no_suffix_y])
  have l1: "count_list (map (suffixed ov ''_x'') ls) ''difference'' \<le> 1"
    using dl by (rule distinct_count_le)
  have r1: "count_list (map (suffixed ov ''_y'') rs) ''difference'' \<le> 1"
    using dr by (rule distinct_count_le)
  have "count_list ls ''difference'' = 0 \<or> count_list rs ''difference'' = 0"
    using False ov by (auto simp: count_list_zero_iff)
  with l r l1 r1 show ?thesis by auto
qed

lemma compare_rentals_columns:
  assumes out: "compare_rentals A B = Inr out"
    and c1: "rentals_cols A = [c1]" and c2: "rentals_cols B = [c2]"
    and ne: "c1 \<noteq> c2"
    and dA: "distinct (columns A)" and dB: "distinct (columns B)"
  obtains kl kr a1 b2 where
    "getitem A ''customer_id'' = Inr kl" "getitem B ''customer_id'' = Inr kr"
    "getitem A c1 = Inr a1" "getitem B c2 = Inr b2"
    "getitem out ''customer_id'' = Inr (take_rows (map fst (join_pairs kl kr)) kl)"
    "getitem out c1 = Inr (take_rows (map fst (join_pairs kl kr)) a1)"
    "getitem out c2 = Inr (take_rows (map snd (join_pairs kl kr)) b2)"
    "getitem out ''difference''
       = Inr (series_sub (take_rows (map snd (join_pairs kl kr)) b2)
                         (take_rows (map fst (join_pairs kl kr)) a1))"
proof -
  let ?k = "''customer_id''"
  let ?ov = "overlap A B ?k"
  from out c1 c2 obtain M s1 s2 where
    M: "merge A B ?k = Inr M" and s2: "getitem M c2 = Inr s2" and s1: "getitem M c1 = Inr s1"
    and outeq: "out = setitem M ''difference'' (series_sub s2 s1)"
    by (auto elim!: compare_rentals_Inr)
  from M obtain kl kr where
    kl: "getitem A ?k = Inr kl" and kr: "getitem B ?k = Inr kr"
    and Meq: "M = map (\<lambda>(n, vs). (suffixed ?ov ''_x'' n, take_rows (map fst (join_pairs kl kr)) vs)) A
         @ map (\<lambda>(n, vs). (suffixed ?ov ''_y'' n, take_rows (map snd (join_pairs kl kr)) vs))
             (drop_key B ?k)"
    by (rule merge_Inr)
  have dl: "distinct (map (suffixed ?ov ''_x'') (columns A))"
    and dr: "distinct (map (suffixed ?ov ''_y'') (columns (drop_key B ?k)))"
    using merge_Inr_distinct [OF M dA dB] by simp_all
  let ?g = "take_rows (map fst (join_pairs kl kr))"
  let ?h = "take_rows (map snd (join_pairs kl kr))"
  let ?L = "map (\<lambda>(n, vs). (suffixed ?ov ''_x'' n, ?g vs)) A"
  let ?R = "map (\<lambda>(n, vs). (suffixed ?ov ''_y'' n, ?h vs)) (drop_key B ?k)"
  note A1 = rentals_cols_single [OF c1]
  note B2 = rentals_cols_single [OF c2]
  \<comment> \<open>neither count column is a label of the other table\<close>
  have c1B: "c1 \<notin> set (columns B)"
    using B2(4) [of c1] A1(2) ne by auto
  have c2A: "c2 \<notin> set (columns A)"
    using A1(4) [of c2] B2(2) ne by auto
  have c1ov: "c1 \<notin> ?ov" using c1B by (simp add: overlap_def columns_drop_key)
  have c2ov: "c2 \<notin> ?ov" using c2A by (simp add: overlap_def)
  have c2B': "c2 \<in> set (columns (drop_key B ?k))"
    using B2(1) B2(5) by (simp add: columns_drop_key)
  \<comment> \<open>the left count column\<close>
  have injx: "inj_on (suffixed ?ov ''_x'') (set (columns A))"
    using dl by (simp add: distinct_map)
  have fx: "\<forall>n \<in> fst ` set A. (suffixed ?ov ''_x'' n = c1) = (n = c1)"
  proof
    fix n assume "n \<in> fst ` set A"
    then have n: "n \<in> set (columns A)" by (simp add: columns_def)
    have "suffixed ?ov ''_x'' c1 = c1" using c1ov by (simp add: suffixed_def)
    with n A1(1) injx show "(suffixed ?ov ''_x'' n = c1) = (n = c1)"
      by (metis inj_onD)
  qed
  from A1(1) obtain a1 where a1: "map_of A c1 = Some a1"
    using in_columns_map_of by blast
  have "map_of ?L c1 = map_option ?g (map_of A c1)"
    using fx by (rule map_of_relabel)
  with a1 have "map_of M c1 = Some (?g a1)"
    by (simp add: Meq map_add_def)
  with s1 have s1eq: "s1 = ?g a1"
    by (simp add: getitem_Inr_iff)
  \<comment> \<open>the right count column\<close>
  have injy: "inj_on (suffixed ?ov ''_y'') (set (columns (drop_key B ?k)))"
    using dr by (simp add: distinct_map)
  have fy: "\<forall>n \<in> fst ` set (drop_key B ?k). (suffixed ?ov ''_y'' n = c2) = (n = c2)"
  proof
    fix n assume "n \<in> fst ` set (drop_key B ?k)"
    then have n: "n \<in> set (columns (drop_key B ?k))" by (simp add: columns_def)
    have "suffixed ?ov ''_y'' c2 = c2" using c2ov by (simp add: suffixed_def)
    with n c2B' injy show "(suffixed ?ov ''_y'' n = c2) = (n = c2)"
      by (metis inj_onD)
  qed
  from B2(1) obtain b2 where b2: "map_of B c2 = Some b2"
    using in_columns_map_of by blast
  have "map_of ?R c2 = map_option ?h (map_of (drop_key B ?k) c2)"
    using fy by (rule map_of_relabel)
  with b2 B2(5) have mR: "map_of ?R c2 = Some (?h b2)"
    by (simp add: map_of_drop_key)
  have cR: "count_list (columns ?R) c2 \<noteq> 0"
    using mR by (metis count_list_zero_iff map_of_None_columns option.distinct(1))
  from s2 have "count_list (columns ?L) c2 + count_list (columns ?R) c2 = 1"
    by (simp add: getitem_Inr_iff Meq columns_append)
  with cR have "count_list (columns ?L) c2 = 0" by linarith
  then have "map_of ?L c2 = None"
    by (simp add: count_list_zero_iff map_of_None_columns)
  with mR have "map_of M c2 = Some (?h b2)"
    by (simp add: Meq map_add_def)
  with s2 have s2eq: "s2 = ?h b2"
    by (simp add: getitem_Inr_iff)
  \<comment> \<open>the assigned column\<close>
  have "count_list (columns M) ''difference'' \<le> 1"
    unfolding Meq columns_append columns_relabel
    using dl dr by (rule merged_difference_count) (simp add: overlap_def)
  then have d: "getitem out ''difference'' = Inr (series_sub s2 s1)"
    unfolding outeq by (rule getitem_setitem_same)
  have o1: "getitem out c1 = Inr s1"
    using s1 A1(6) by (simp add: outeq getitem_setitem_other)
  have o2: "getitem out c2 = Inr s2"
    using s2 B2(6) by (simp add: outeq getitem_setitem_other)
  have ok: "getitem out ?k = Inr (?g kl)"
    using merged_key_column [OF M kl kr] by (simp add: outeq getitem_setitem_other)
  have gA: "getitem A c1 = Inr a1"
    using a1 A1(3) by (simp add: getitem_Inr_iff)
  have gB: "getitem B c2 = Inr b2"
    using b2 B2(3) by (simp add: getitem_Inr_iff)
  from kl kr gA gB ok o1 o2 d show thesis
    unfolding s1eq s2eq by (rule that)
qed

lemma getitem_distinct:
  assumes "distinct (columns df)" "c \<in> set (columns df)"
  shows "\<exists>vs. getitem df c = Inr vs"
proof -
  from assms(2) obtain vs where "map_of df c = Some vs"
    using in_columns_map_of by blast
  moreover have "count_list (columns df) c = 1"
    using assms distinct_count_le [of "columns df" c] count_list_zero_iff [of "columns df" c]
    by linarith
  ultimately show ?thesis by (simp add: getitem_Inr_iff)
qed

lemma suffixed_empty: "suffixed {} s = (\<lambda>c. c)"
  by (simp add: suffixed_def fun_eq_iff)

lemma wf_frame_length:
  assumes "wf_frame df" "getitem df c = Inr vs"
  shows "length vs = nrows df"
proof -
  from assms(2) have "map_of df c = Some vs" by (simp add: getitem_Inr_iff)
  then have "(c, vs) \<in> set df" by (rule map_of_SomeD)
  with assms(1) show ?thesis
    by (auto simp: wf_frame_def list_all_iff)
qed

lemma join_pairs_disjoint: "set kl \<inter> set kr = {} \<Longrightarrow> join_pairs kl kr = []"
proof -
  assume d: "set kl \<inter> set kr = {}"
  have "set (join_pairs kl kr) = {}"
  proof (rule ccontr)
    assume "set (join_pairs kl kr) \<noteq> {}"
    then obtain i j where "i < length kl" "j < length kr" "kl ! i = kr ! j"
      by (auto simp: set_join_pairs)
    then have "kl ! i \<in> set kl \<inter> set kr"
      by (metis IntI nth_mem)
    with d show False by simp
  qed
  then show ?thesis by simp
qed

lemma compare_rentals_succeeds:
  assumes wfA: "wf_frame A" and wfB: "wf_frame B"
    and c1: "rentals_cols A = [c1]" and c2: "rentals_cols B = [c2]"
    and disj: "set (columns A) \<inter> set (columns B) = {''customer_id''}"
  shows "\<exists>out. compare_rentals A B = Inr out"
proof -
  let ?k = "''customer_id''"
  from wfA wfB have dA: "distinct (columns A)" and dB: "distinct (columns B)"
    by (simp_all add: wf_frame_def)
  from disj have kA: "?k \<in> set (columns A)" and kB: "?k \<in> set (columns B)"
    by auto
  from getitem_distinct [OF dA kA] obtain kl where kl: "getitem A ?k = Inr kl" ..
  from getitem_distinct [OF dB kB] obtain kr where kr: "getitem B ?k = Inr kr" ..
  have ov: "overlap A B ?k = {}"
    using disj by (auto simp: overlap_def columns_drop_key)
  have dB': "distinct (columns (drop_key B ?k))"
    using dB by (simp add: columns_drop_key_filter)
  let ?M = "map (\<lambda>(n, vs). (n, take_rows (map fst (join_pairs kl kr)) vs)) A
            @ map (\<lambda>(n, vs). (n, take_rows (map snd (join_pairs kl kr)) vs)) (drop_key B ?k)"
  have "suffix_dups (\<lambda>c. c) [] (columns A) = []"
    "suffix_dups (\<lambda>c. c) [] (columns (drop_key B ?k)) = []"
    using dA dB' by (simp_all add: suffix_dups_distinct)
  then have M: "merge A B ?k = Inr ?M"
    using kl kr by (simp add: merge_def Let_def ov suffixed_empty)
  have cM: "columns ?M = columns A @ columns (drop_key B ?k)"
    by (simp add: columns_append columns_relabel)
  have dM: "distinct (columns ?M)"
    unfolding cM using dA dB' disj by (auto simp: columns_drop_key)
  note A1 = rentals_cols_single [OF c1]
  note B2 = rentals_cols_single [OF c2]
  have "c1 \<in> set (columns ?M)" using A1(1) by (simp add: cM)
  from getitem_distinct [OF dM this] obtain s1 where s1: "getitem ?M c1 = Inr s1" ..
  have "c2 \<in> set (columns ?M)" using B2(1) B2(5) by (simp add: cM columns_drop_key)
  from getitem_distinct [OF dM this] obtain s2 where s2: "getitem ?M c2 = Inr s2" ..
  have "compare_rentals A B = Inr (setitem ?M ''difference'' (series_sub s2 s1))"
    using c1 c2 M s1 s2 by (simp add: compare_rentals_def)
  then show ?thesis by blast
qed

lemma disjoint_names_differ:
  assumes c1: "rentals_cols A = [c1]" and c2: "rentals_cols B = [c2]"
    and disj: "set (columns A) \<inter> set (columns B) = {''customer_id''}"
  shows "c1 \<noteq> c2"
  using rentals_cols_single(1,5) [OF c1] rentals_cols_single(1) [OF c2] disj by auto

lemma series_sub_joined:
  "series_sub (take_rows (map snd ps) b) (take_rows (map fst ps) a) = map (\<lambda>(i, j). b ! j - a ! i) ps"
  by (induction ps) (auto simp: series_sub_def take_rows_def)

section \<open>\<open>compare_rentals\<close>: the example tables\<close>

lemma compare_may_june:
  "compare_rentals counts_may counts_june
     = Inr [(''customer_id'', [1]), (''rentals_05_2005'', [3]), (''rentals_06_2005'', [5]),
            (''difference'', [2])]"
  unfolding counts_may_def counts_june_def by code_simp

lemma wf_counts_may: "wf_frame counts_may"
  by (simp add: wf_frame_def counts_may_def columns_def nrows_def)

lemma wf_counts_june: "wf_frame counts_june"
  by (simp add: wf_frame_def counts_june_def columns_def nrows_def)

lemma rentals_cols_may: "rentals_cols counts_may = [''rentals_05_2005'']"
  by (simp add: rentals_cols_def counts_may_def columns_def startswith_def)

lemma rentals_cols_june: "rentals_cols counts_june = [''rentals_06_2005'']"
  by (simp add: rentals_cols_def counts_june_def columns_def startswith_def)



lemma setitem_all_empty:
  assumes "\<forall>(n, vs) \<in> set df. vs = []"
  shows "\<forall>(n, vs) \<in> set (setitem df c []). vs = []"
  using assms by (auto simp: setitem_def split: if_splits)

section \<open>\<open>compare_rentals\<close>: the result\<close>



text \<open>
  Two count tables for June 2005 that both hold customer 2: the join renames
  both count columns and no table is returned.
\<close>

theorem common_customer_counterexample:
  "wf_frame counts_june \<and> wf_frame counts_june_other
   \<and> length (rentals_cols counts_june) = 1
   \<and> length (rentals_cols counts_june_other) = 1
   \<and> set (customer_ids counts_june) \<inter> set (customer_ids counts_june_other) = {2}
   \<and> compare_rentals counts_june counts_june_other = Inl (KeyError ''rentals_06_2005'')"
proof (intro conjI)
  show "wf_frame counts_june" by (rule wf_counts_june)
  show "wf_frame counts_june_other"
    by (simp add: wf_frame_def counts_june_other_def columns_def nrows_def)
  show "length (rentals_cols counts_june) = 1" by (simp add: rentals_cols_june)
  show "length (rentals_cols counts_june_other) = 1"
    by (simp add: rentals_cols_def counts_june_other_def columns_def startswith_def)
  show "set (customer_ids counts_june) \<inter> set (customer_ids counts_june_other) = {2}"
    by (simp add: customer_ids_def getitem_def counts_june_def counts_june_other_def columns_def)
  show "compare_rentals counts_june counts_june_other = Inl (KeyError ''rentals_06_2005'')"
    unfolding counts_june_def counts_june_other_def by code_simp
qed

text \<open>
  C3 (amended). When the count columns of the two inputs have different names,
  every row of the table that \<open>compare_rentals\<close> returns comes from a row \<open>i\<close>
  of the first input and a row \<open>j\<close> of the second with the same customer id,
  holds the two counts of these rows, and its \<open>difference\<close> is the second count
  minus the first in int64; for counts that are not negative this is the exact
  signed difference, negative or zero included.
\<close>

theorem difference_is_second_minus_first:
  assumes wf1: "wf_frame df_counts_1" and wf2: "wf_frame df_counts_2"
    and out: "compare_rentals df_counts_1 df_counts_2 = Inr out"
    and c1: "rentals_cols df_counts_1 = [col_1]" and c2: "rentals_cols df_counts_2 = [col_2]"
    and ne: "col_1 \<noteq> col_2"
  shows "\<exists>kl kr a1 b2.
           getitem df_counts_1 ''customer_id'' = Inr kl
         \<and> getitem df_counts_2 ''customer_id'' = Inr kr
         \<and> getitem df_counts_1 col_1 = Inr a1
         \<and> getitem df_counts_2 col_2 = Inr b2
         \<and> getitem out col_1 = Inr (map (\<lambda>(i, j). a1 ! i) (join_pairs kl kr))
         \<and> getitem out col_2 = Inr (map (\<lambda>(i, j). b2 ! j) (join_pairs kl kr))
         \<and> getitem out ''difference'' = Inr (map (\<lambda>(i, j). b2 ! j - a1 ! i) (join_pairs kl kr))
         \<and> (\<forall>(i, j) \<in> set (join_pairs kl kr).
               i < length a1 \<and> j < length b2
               \<and> (0 \<le> sint (a1 ! i) \<and> 0 \<le> sint (b2 ! j)
                    \<longrightarrow> sint (b2 ! j - a1 ! i) = sint (b2 ! j) - sint (a1 ! i)))"
proof -
  from out c1 c2 ne wf_frame_distinct [OF wf1] wf_frame_distinct [OF wf2]
  obtain kl kr a1 b2 where
    kl: "getitem df_counts_1 ''customer_id'' = Inr kl"
    and kr: "getitem df_counts_2 ''customer_id'' = Inr kr"
    and a1: "getitem df_counts_1 col_1 = Inr a1"
    and b2: "getitem df_counts_2 col_2 = Inr b2"
    and o1: "getitem out col_1 = Inr (take_rows (map fst (join_pairs kl kr)) a1)"
    and o2: "getitem out col_2 = Inr (take_rows (map snd (join_pairs kl kr)) b2)"
    and d: "getitem out ''difference''
       = Inr (series_sub (take_rows (map snd (join_pairs kl kr)) b2)
                         (take_rows (map fst (join_pairs kl kr)) a1))"
    by (rule compare_rentals_columns)
  have "length a1 = length kl"
    using wf_frame_length [OF wf1 a1] wf_frame_length [OF wf1 kl] by simp
  moreover have "length b2 = length kr"
    using wf_frame_length [OF wf2 b2] wf_frame_length [OF wf2 kr] by simp
  ultimately have rng: "\<forall>(i, j) \<in> set (join_pairs kl kr).
               i < length a1 \<and> j < length b2
               \<and> (0 \<le> sint (a1 ! i) \<and> 0 \<le> sint (b2 ! j)
                    \<longrightarrow> sint (b2 ! j - a1 ! i) = sint (b2 ! j) - sint (a1 ! i))"
    by (auto simp: set_join_pairs sint_sub_nonneg)
  from kl kr a1 b2 o1 o2 d rng show ?thesis
    unfolding take_rows_fst take_rows_snd series_sub_joined [unfolded take_rows_fst take_rows_snd]
    by blast
qed

theorem difference_is_second_minus_first_witness:
  "wf_frame counts_may \<and> wf_frame counts_june
   \<and> compare_rentals counts_may counts_june
       = Inr [(''customer_id'', [1]), (''rentals_05_2005'', [3]), (''rentals_06_2005'', [5]),
              (''difference'', [2])]
   \<and> rentals_cols counts_may = [''rentals_05_2005'']
   \<and> rentals_cols counts_june = [''rentals_06_2005'']
   \<and> ''rentals_05_2005'' \<noteq> ''rentals_06_2005''
   \<and> getitem [(''customer_id'', [1]), (''rentals_05_2005'', [3]), (''rentals_06_2005'', [5]),
              (''difference'', [2])] ''difference'' = Inr [5 - 3]"
proof -
  have ne: "''rentals_05_2005'' \<noteq> ''rentals_06_2005''" by simp
  from difference_is_second_minus_first
    [OF wf_counts_may wf_counts_june compare_may_june rentals_cols_may rentals_cols_june ne]
  obtain kl kr a1 b2 where
    "getitem counts_may ''customer_id'' = Inr kl"
    "getitem counts_june ''customer_id'' = Inr kr"
    "getitem counts_may ''rentals_05_2005'' = Inr a1"
    "getitem counts_june ''rentals_06_2005'' = Inr b2"
    "getitem [(''customer_id'', [1]), (''rentals_05_2005'', [3]), (''rentals_06_2005'', [5]),
              (''difference'', [2])] ''difference''
       = Inr (map (\<lambda>(i, j). b2 ! j - a1 ! i) (join_pairs kl kr))"
    by blast
  then have "getitem [(''customer_id'', [1]), (''rentals_05_2005'', [3]), (''rentals_06_2005'', [5]),
              (''difference'', [2])] ''difference'' = Inr [5 - 3]"
    by (simp add: getitem_def counts_may_def counts_june_def columns_def)
  with wf_counts_may wf_counts_june compare_may_june rentals_cols_may rentals_cols_june ne
  show ?thesis by blast
qed

text \<open>
  With the same count column name on both sides, \<open>merge\<close> renames the count
  columns; where another column \<open>rentals\<close> is renamed to \<open>rentals_x\<close>, the
  difference is taken on that column and not on the counts.
\<close>

theorem difference_counterexample:
  "rentals_cols extra_1 = [''rentals_x'']
   \<and> rentals_cols extra_2 = [''rentals_x'']
   \<and> getitem extra_1 ''rentals_x'' = Inr [3]
   \<and> getitem extra_2 ''rentals_x'' = Inr [5]
   \<and> compare_rentals extra_1 extra_2
       = Inr [(''customer_id'', [1]), (''rentals_x'', [7]), (''rentals_x_x'', [3]),
              (''rentals_y'', [8]), (''rentals_x_y'', [5]), (''difference'', [0])]
   \<and> (5 :: cell) - 3 \<noteq> 0"
proof (intro conjI)
  show "rentals_cols extra_1 = [''rentals_x'']"
    by (simp add: rentals_cols_def extra_1_def columns_def startswith_def)
  show "rentals_cols extra_2 = [''rentals_x'']"
    by (simp add: rentals_cols_def extra_2_def columns_def startswith_def)
  show "getitem extra_1 ''rentals_x'' = Inr [3]"
    by (simp add: getitem_def extra_1_def columns_def)
  show "getitem extra_2 ''rentals_x'' = Inr [5]"
    by (simp add: getitem_def extra_2_def columns_def)
  show "compare_rentals extra_1 extra_2
       = Inr [(''customer_id'', [1]), (''rentals_x'', [7]), (''rentals_x_x'', [3]),
              (''rentals_y'', [8]), (''rentals_x_y'', [5]), (''difference'', [0])]"
    unfolding extra_1_def extra_2_def by code_simp
  show "(5 :: cell) - 3 \<noteq> 0"
    by simp
qed




text \<open>
  C7 (amended). \<open>rental_count_month\<close> on no rows returns the table with its two
  columns and no row. \<open>compare_rentals\<close> on two well-formed tables with one
  count column each, no shared label but \<open>customer_id\<close> and no customer in
  common returns a table, and that table has no row.
\<close>

theorem empty_results_are_not_errors:
  "rental_count_month [] month year = [(''customer_id'', []), (col_name month year, [])]
   \<and> (wf_frame df_counts_1 \<and> wf_frame df_counts_2
        \<and> length (rentals_cols df_counts_1) = 1 \<and> length (rentals_cols df_counts_2) = 1
        \<and> set (columns df_counts_1) \<inter> set (columns df_counts_2) = {''customer_id''}
        \<and> set (customer_ids df_counts_1) \<inter> set (customer_ids df_counts_2) = {}
      \<longrightarrow> (\<exists>out. compare_rentals df_counts_1 df_counts_2 = Inr out
                \<and> customer_ids out = []
                \<and> (\<forall>(n, vs) \<in> set out. vs = [])))"
proof (intro conjI impI)
  show "rental_count_month [] month year = [(''customer_id'', []), (col_name month year, [])]"
    by (simp add: rental_count_month_def group_keys_def)
next
  assume h: "wf_frame df_counts_1 \<and> wf_frame df_counts_2
        \<and> length (rentals_cols df_counts_1) = 1 \<and> length (rentals_cols df_counts_2) = 1
        \<and> set (columns df_counts_1) \<inter> set (columns df_counts_2) = {''customer_id''}
        \<and> set (customer_ids df_counts_1) \<inter> set (customer_ids df_counts_2) = {}"
  then have wf1: "wf_frame df_counts_1" and wf2: "wf_frame df_counts_2"
    and l1: "length (rentals_cols df_counts_1) = 1"
    and l2: "length (rentals_cols df_counts_2) = 1"
    and disj: "set (columns df_counts_1) \<inter> set (columns df_counts_2) = {''customer_id''}"
    and ids: "set (customer_ids df_counts_1) \<inter> set (customer_ids df_counts_2) = {}"
    by blast+
  from l1 obtain c1 where c1: "rentals_cols df_counts_1 = [c1]"
    by (cases "rentals_cols df_counts_1") auto
  from l2 obtain c2 where c2: "rentals_cols df_counts_2 = [c2]"
    by (cases "rentals_cols df_counts_2") auto
  from compare_rentals_succeeds [OF wf1 wf2 c1 c2 disj]
  obtain out where out: "compare_rentals df_counts_1 df_counts_2 = Inr out" ..
  then obtain c1' c2' M s1 s2 where
    M: "merge df_counts_1 df_counts_2 ''customer_id'' = Inr M"
    and s2: "getitem M c2' = Inr s2"
    and outeq: "out = setitem M ''difference'' (series_sub s2 s1)"
    by (rule compare_rentals_Inr)
  from M obtain kl kr where
    kl: "getitem df_counts_1 ''customer_id'' = Inr kl"
    and kr: "getitem df_counts_2 ''customer_id'' = Inr kr"
    and Meq: "M = map (\<lambda>(n, vs). (suffixed (overlap df_counts_1 df_counts_2 ''customer_id'') ''_x'' n,
                                  take_rows (map fst (join_pairs kl kr)) vs)) df_counts_1
         @ map (\<lambda>(n, vs). (suffixed (overlap df_counts_1 df_counts_2 ''customer_id'') ''_y'' n,
                            take_rows (map snd (join_pairs kl kr)) vs))
             (drop_key df_counts_2 ''customer_id'')"
    by (rule merge_Inr)
  from ids kl kr have "set kl \<inter> set kr = {}"
    by (simp add: customer_ids_def)
  then have nil: "join_pairs kl kr = []"
    by (rule join_pairs_disjoint)
  have Mempty: "\<forall>(n, vs) \<in> set M. vs = []"
    unfolding Meq nil by (auto simp: take_rows_def)
  from s2 have "(c2', s2) \<in> set M"
    by (simp add: getitem_Inr_iff map_of_SomeD)
  with Mempty have "s2 = []" by auto
  then have "series_sub s2 s1 = []"
    by (simp add: series_sub_def)
  with Mempty have e: "\<forall>(n, vs) \<in> set out. vs = []"
    unfolding outeq by (simp add: setitem_all_empty)
  from out obtain kl' kr' where
    "getitem out ''customer_id'' = Inr (take_rows (map fst (join_pairs kl' kr')) kl')"
    by (rule compare_rentals_key_column)
  then have "(''customer_id'', take_rows (map fst (join_pairs kl' kr')) kl') \<in> set out"
    by (simp add: getitem_Inr_iff map_of_SomeD)
  with e have "take_rows (map fst (join_pairs kl' kr')) kl' = []" by auto
  then have "customer_ids out = []"
    using \<open>getitem out ''customer_id'' = Inr (take_rows (map fst (join_pairs kl' kr')) kl')\<close>
    by (simp add: customer_ids_def)
  with out e show "\<exists>out. compare_rentals df_counts_1 df_counts_2 = Inr out
                \<and> customer_ids out = []
                \<and> (\<forall>(n, vs) \<in> set out. vs = [])"
    by blast
qed

theorem empty_results_are_not_errors_witness:
  "wf_frame counts_may \<and> wf_frame counts_june_disjoint
   \<and> length (rentals_cols counts_may) = 1
   \<and> length (rentals_cols counts_june_disjoint) = 1
   \<and> set (columns counts_may) \<inter> set (columns counts_june_disjoint) = {''customer_id''}
   \<and> set (customer_ids counts_may) \<inter> set (customer_ids counts_june_disjoint) = {}
   \<and> (\<exists>out. compare_rentals counts_may counts_june_disjoint = Inr out
          \<and> customer_ids out = []
          \<and> (\<forall>(n, vs) \<in> set out. vs = []))"
proof -
  have h1: "wf_frame counts_may" by (rule wf_counts_may)
  have h2: "wf_frame counts_june_disjoint"
    by (simp add: wf_frame_def counts_june_disjoint_def columns_def nrows_def)
  have h3: "length (rentals_cols counts_may) = 1" by (simp add: rentals_cols_may)
  have h4: "length (rentals_cols counts_june_disjoint) = 1"
    by (simp add: rentals_cols_def counts_june_disjoint_def columns_def startswith_def)
  have h5: "set (columns counts_may) \<inter> set (columns counts_june_disjoint) = {''customer_id''}"
    by (auto simp: counts_may_def counts_june_disjoint_def columns_def)
  have h6: "set (customer_ids counts_may) \<inter> set (customer_ids counts_june_disjoint) = {}"
    by (simp add: customer_ids_def getitem_def counts_may_def counts_june_disjoint_def columns_def)
  from empty_results_are_not_errors [of 5 2005 counts_may counts_june_disjoint] h1 h2 h3 h4 h5 h6
  have "\<exists>out. compare_rentals counts_may counts_june_disjoint = Inr out
          \<and> customer_ids out = []
          \<and> (\<forall>(n, vs) \<in> set out. vs = [])"
    by blast
  with h1 h2 h3 h4 h5 h6 show ?thesis by (intro conjI)
qed

text \<open>Two count tables for the same month with no customer in common.\<close>

theorem disjoint_same_name_counterexample:
  "length (rentals_cols counts_may) = 1
   \<and> length (rentals_cols counts_may_disjoint) = 1
   \<and> set (customer_ids counts_may) \<inter> set (customer_ids counts_may_disjoint) = {}
   \<and> compare_rentals counts_may counts_may_disjoint = Inl (KeyError ''rentals_05_2005'')"
proof (intro conjI)
  show "length (rentals_cols counts_may) = 1" by (simp add: rentals_cols_may)
  show "length (rentals_cols counts_may_disjoint) = 1"
    by (simp add: rentals_cols_def counts_may_disjoint_def columns_def startswith_def)
  show "set (customer_ids counts_may) \<inter> set (customer_ids counts_may_disjoint) = {}"
    by (simp add: customer_ids_def getitem_def counts_may_def counts_may_disjoint_def columns_def)
  show "compare_rentals counts_may counts_may_disjoint = Inl (KeyError ''rentals_05_2005'')"
    unfolding counts_may_def counts_may_disjoint_def by code_simp
qed

end
